theory Spec2Isabelle
  imports Complex_Main "HOL-Library.Char_ord" "HOL-Library.List_Lexorder"
    "HOL-Library.Product_Lexorder"
begin

section \<open>Persisted tables and \<open>append_dedupe\<close>\<close>

text \<open>
  A persisted table is a list of rows in file order. A row carries named cells; a column a
  row does not carry reads as the missing value \<open>NA\<close>, which is what the outer join of
  \<^verbatim>\<open>pd.concat\<close> fills in. \<^verbatim>\<open>drop_duplicates\<close> compares missing values as
  equal, as equality on \<open>cell\<close> does. The key list of a call names columns of the tables,
  as the three calls of the script do (for a key that is a column of neither table pandas
  raises \<^verbatim>\<open>KeyError\<close> and writes nothing).
\<close>

datatype cell = NA | Text string | Number int | Ratio rat

type_synonym row = "(string \<times> cell) list"

type_synonym frame = "row list"

definition cell_of :: "row \<Rightarrow> string \<Rightarrow> cell" where
  "cell_of r c = (case map_of r c of None \<Rightarrow> NA | Some v \<Rightarrow> v)"

definition row_key :: "string list \<Rightarrow> row \<Rightarrow> cell list" where
  "row_key subset_keys r = map (cell_of r) subset_keys"

text \<open>\<^verbatim>\<open>df.drop_duplicates(subset=subset_keys, keep="last")\<close>: a row stays unless a later
  row agrees with it on every key column; the order of the rows that stay is kept.\<close>

fun drop_duplicates :: "string list \<Rightarrow> frame \<Rightarrow> frame" where
  "drop_duplicates subset_keys [] = []"
| "drop_duplicates subset_keys (r # rs) =
     (if row_key subset_keys r \<in> set (map (row_key subset_keys) rs)
      then drop_duplicates subset_keys rs
      else r # drop_duplicates subset_keys rs)"

text \<open>The exports directory: a path holds a table or does not exist.\<close>

type_synonym files = "string \<rightharpoonup> frame"

text \<open>\<^verbatim>\<open>append_dedupe(existing_path, new_df, subset_keys)\<close>, lines 98 to 107: the
  directory after the write of \<^verbatim>\<open>combined\<close> to \<^verbatim>\<open>existing_path\<close>. The table of
  an existing path is what \<^verbatim>\<open>pd.read_parquet\<close> reads from it.\<close>

definition append_dedupe :: "files \<Rightarrow> string \<Rightarrow> frame \<Rightarrow> string list \<Rightarrow> files" where
  "append_dedupe fs existing_path new_df subset_keys =
     (let combined =
        (case fs existing_path of
           Some old \<Rightarrow> drop_duplicates subset_keys (old @ new_df)
         | None \<Rightarrow> new_df)
      in fs(existing_path \<mapsto> combined))"

definition unique_keys :: "string list \<Rightarrow> frame \<Rightarrow> bool" where
  "unique_keys subset_keys t = distinct (map (row_key subset_keys) t)"

text \<open>Example rows: the country-year rows of the specification's merge example, and two
  top-track rows that share region, year and url but differ in title.\<close>

definition us_2020_old :: row where
  "us_2020_old = [(''region'', Text ''US''), (''year'', Number 2020), (''total_streams'', Number 500)]"

definition us_2020_new :: row where
  "us_2020_new = [(''region'', Text ''US''), (''year'', Number 2020), (''total_streams'', Number 600)]"

definition fr_2020_new :: row where
  "fr_2020_new = [(''region'', Text ''FR''), (''year'', Number 2020), (''total_streams'', Number 20)]"

definition retitled_a :: row where
  "retitled_a = [(''region'', Text ''Global''), (''year'', Number 2021), (''url'', Text ''u1''),
     (''title'', Text ''Song''), (''artist'', Text ''X''), (''streams'', Number 10),
     (''best_rank'', Number 1), (''days_on_chart'', Number 1), (''rank_year'', Number 1)]"

definition retitled_b :: row where
  "retitled_b = [(''region'', Text ''Global''), (''year'', Number 2021), (''url'', Text ''u1''),
     (''title'', Text ''Song (Remix)''), (''artist'', Text ''X''), (''streams'', Number 7),
     (''best_rank'', Number 2), (''days_on_chart'', Number 1), (''rank_year'', Number 2)]"

section \<open>The chart rows of 2021\<close>

text \<open>
  One line of \<^verbatim>\<open>charts.csv\<close> as \<^verbatim>\<open>pd.read_csv\<close> presents it: every
  cell is its text, or missing (\<open>None\<close>, pandas' NaN). A table without a
  \<^verbatim>\<open>streams\<close> column reads as one whose \<open>csv_streams\<close> cells are all missing
  (\<^verbatim>\<open>df_2021.get("streams", None)\<close>). Whether the table has a \<^verbatim>\<open>url\<close> column
  is the flag \<open>url_col\<close> of the functions below (\<^verbatim>\<open>"url" in df_2021.columns\<close>).
\<close>

record csv_row =
  csv_title :: "string option"
  csv_rank :: "string option"
  csv_date :: "string option"
  csv_artist :: "string option"
  csv_url :: "string option"
  csv_region :: "string option"
  csv_chart :: "string option"
  csv_streams :: "string option"

text \<open>A parsed date: year, month, day.\<close>

type_synonym timestamp = "int \<times> nat \<times> nat"

text \<open>A row of \<^verbatim>\<open>df_2021\<close>, after the cleanup of lines 27 to 43. Ranks and stream
  counts are integers (the counts of the chart data; sums are exact).\<close>

record chart_row =
  title :: "string option"
  rank :: int
  date :: timestamp
  artist :: "string option"
  url :: "string option"
  region :: string
  chart :: string
  streams :: "int option"
  year :: int

text \<open>\<^verbatim>\<open>str.lower()\<close> on the letters A to Z.\<close>

definition lower_char :: "char \<Rightarrow> char" where
  "lower_char c =
     (if CHR ''A'' \<le> c \<and> c \<le> CHR ''Z'' then char_of (of_char c + (32::nat)) else c)"

definition lower :: "string \<Rightarrow> string" where
  "lower s = map lower_char s"

text \<open>
  Lines 27 to 43 on one row. The two library parsers are parameters:
  \<open>to_datetime\<close> is \<^verbatim>\<open>pd.to_datetime(_, errors="coerce")\<close> on a text (\<open>None\<close> is NaT),
  \<open>to_numeric\<close> is \<^verbatim>\<open>pd.to_numeric(_, errors="coerce")\<close> on a text (\<open>None\<close> is NaN; for
  the rank followed by \<^verbatim>\<open>astype(int)\<close>). A row is dropped (\<open>None\<close>) by the
  \<^verbatim>\<open>dropna\<close> of line 28, by the filter of line 31, or by the \<^verbatim>\<open>dropna\<close> of line 36.
\<close>

definition clean_row ::
  "(string \<Rightarrow> timestamp option) \<Rightarrow> (string \<Rightarrow> int option) \<Rightarrow> csv_row \<Rightarrow> chart_row option" where
  "clean_row to_datetime to_numeric r =
     (case (Option.bind (csv_date r) to_datetime, csv_region r, csv_chart r, csv_rank r) of
        (Some d, Some g, Some c, Some k) \<Rightarrow>
          if fst d = 2021 \<and> lower c = ''top200'' then
            (case to_numeric k of
               Some n \<Rightarrow>
                 Some \<lparr>title = csv_title r, rank = n, date = d, artist = csv_artist r,
                   url = csv_url r, region = g, chart = c,
                   streams = Option.bind (csv_streams r) to_numeric, year = 2021\<rparr>
             | None \<Rightarrow> None)
          else None
      | _ \<Rightarrow> None)"

definition df_2021 ::
  "(string \<Rightarrow> timestamp option) \<Rightarrow> (string \<Rightarrow> int option) \<Rightarrow> csv_row list \<Rightarrow> chart_row list" where
  "df_2021 to_datetime to_numeric df = List.map_filter (clean_row to_datetime to_numeric) df"

text \<open>The cleaning rule in the specification's words: the date parses, region, chart and
  rank are present, the rank is numeric, and the row is of the target year and chart type.\<close>

definition qualifies ::
  "(string \<Rightarrow> timestamp option) \<Rightarrow> (string \<Rightarrow> int option) \<Rightarrow> csv_row \<Rightarrow> bool" where
  "qualifies to_datetime to_numeric r =
     (Option.bind (csv_date r) to_datetime \<noteq> None \<and> csv_region r \<noteq> None \<and>
      csv_chart r \<noteq> None \<and> Option.bind (csv_rank r) to_numeric \<noteq> None \<and>
      map_option fst (Option.bind (csv_date r) to_datetime) = Some 2021 \<and>
      map_option lower (csv_chart r) = Some ''top200'')"

section \<open>Grouping and aggregation\<close>

text \<open>
  \<^verbatim>\<open>df.groupby(keys)\<close> with pandas' defaults \<^verbatim>\<open>sort=True\<close> and \<^verbatim>\<open>dropna=True\<close>:
  a row with a missing key cell (\<open>by r = None\<close>) is in no group; the groups come in
  ascending order of their keys (tuples in lexicographic order, strings in the order of
  their character codes, as Python compares them); inside a group the rows keep the order
  of the table.
\<close>

definition groupby :: "('r \<Rightarrow> 'k::linorder option) \<Rightarrow> 'r list \<Rightarrow> ('k \<times> 'r list) list" where
  "groupby by df =
     map (\<lambda>k. (k, filter (\<lambda>r. by r = Some k) df)) (sort (remdups (List.map_filter by df)))"

text \<open>The aggregations: \<^verbatim>\<open>nunique\<close>, \<^verbatim>\<open>sum\<close> and \<^verbatim>\<open>mean\<close> skip missing cells; the
  sum of no cells is 0 and the mean of no cells is missing.\<close>

definition nunique :: "('r \<Rightarrow> 'v option) \<Rightarrow> 'r list \<Rightarrow> nat" where
  "nunique col rs = length (remdups (List.map_filter col rs))"

definition sum_col :: "('r \<Rightarrow> int option) \<Rightarrow> 'r list \<Rightarrow> int" where
  "sum_col col rs = sum_list (List.map_filter col rs)"

definition mean_col :: "('r \<Rightarrow> int option) \<Rightarrow> 'r list \<Rightarrow> rat option" where
  "mean_col col rs =
     (case List.map_filter col rs of
        [] \<Rightarrow> None
      | v # vs \<Rightarrow> Some (of_int (sum_list (v # vs)) / of_nat (length (v # vs))))"

definition min_col :: "('r \<Rightarrow> int) \<Rightarrow> 'r list \<Rightarrow> int" where
  "min_col col rs = Min (set (map col rs))"

datatype error = KeyError string

subsection \<open>\<^verbatim>\<open>cys_2021\<close>: the country-year summary\<close>

record cys_row =
  cys_region :: string
  cys_year :: int
  chart_rows :: nat
  unique_tracks :: nat
  unique_artists :: nat
  total_streams :: int
  avg_streams :: "rat option"

text \<open>Lines 51 to 60. The aggregation names the column \<^verbatim>\<open>url\<close>: on a table without
  it pandas raises \<^verbatim>\<open>KeyError\<close>.\<close>

definition cys_2021 :: "bool \<Rightarrow> chart_row list \<Rightarrow> error + cys_row list" where
  "cys_2021 url_col df =
     (if \<not> url_col then Inl (KeyError ''url'')
      else Inr (map (\<lambda>((g, y), rs).
             \<lparr>cys_region = g, cys_year = y,
              chart_rows = length rs,
              unique_tracks = nunique url rs,
              unique_artists = nunique artist rs,
              total_streams = sum_col streams rs,
              avg_streams = mean_col streams rs\<rparr>)
           (groupby (\<lambda>r. Some (region r, year r)) df)))"

subsection \<open>Ranking inside a region and year\<close>

text \<open>\<^verbatim>\<open>groupby(g).cumcount()\<close>: for each row, the number of earlier rows of its group.\<close>

fun cumcount_from :: "('a \<Rightarrow> 'g) \<Rightarrow> 'a list \<Rightarrow> 'a list \<Rightarrow> nat list" where
  "cumcount_from g seen [] = []"
| "cumcount_from g seen (x # xs) =
     length (filter (\<lambda>y. g y = g x) seen) # cumcount_from g (seen @ [x]) xs"

definition cumcount :: "('a \<Rightarrow> 'g) \<Rightarrow> 'a list \<Rightarrow> nat list" where
  "cumcount g xs = cumcount_from g [] xs"

text \<open>
  Lines 75 to 77 and 90 to 92, the same three steps on both tables:
  \<^verbatim>\<open>sort_values(["region","year","streams"], ascending=[True,True,False])\<close>, a stable sort on
  the three columns; \<^verbatim>\<open>rank_year = groupby(["region","year"]).cumcount() + 1\<close>; and the
  filter \<^verbatim>\<open>rank_year <= limit\<close>. A ranked row is the row with its \<^verbatim>\<open>rank_year\<close>.
\<close>

definition rank_year_top ::
  "('a \<Rightarrow> string) \<Rightarrow> ('a \<Rightarrow> int) \<Rightarrow> ('a \<Rightarrow> int) \<Rightarrow> nat \<Rightarrow> 'a list \<Rightarrow> ('a \<times> nat) list" where
  "rank_year_top reg yr str limit agg =
     (let sorted = sort_key (\<lambda>e. (reg e, yr e, - str e)) agg;
          rank_year = map Suc (cumcount (\<lambda>e. (reg e, yr e)) sorted)
      in filter (\<lambda>(e, k). k \<le> limit) (zip sorted rank_year))"

definition rank_year :: "'a \<times> nat \<Rightarrow> nat" where
  "rank_year p = snd p"

subsection \<open>\<^verbatim>\<open>tt_2021\<close>: the top tracks\<close>

text \<open>Line 65: the column that identifies a track, chosen once for the table.\<close>

definition track_key :: "bool \<Rightarrow> string" where
  "track_key url_col = (if url_col then ''url'' else ''title'')"

text \<open>\<^verbatim>\<open>df_2021[track_key]\<close> at a row.\<close>

definition track_id :: "bool \<Rightarrow> chart_row \<Rightarrow> string option" where
  "track_id url_col r = (if url_col then url r else title r)"

record track_year =
  tt_region :: string
  tt_year :: int
  tt_track :: string
  tt_title :: string
  tt_artist :: string
  tt_streams :: int
  tt_best_rank :: int
  tt_days_on_chart :: nat

text \<open>Lines 66 to 73: a row with a missing track key, title or artist is in no group.\<close>

definition tt_key :: "bool \<Rightarrow> chart_row \<Rightarrow> (string \<times> int \<times> string \<times> string \<times> string) option" where
  "tt_key url_col r =
     (case (track_id url_col r, title r, artist r) of
        (Some u, Some t, Some a) \<Rightarrow> Some (region r, year r, u, t, a)
      | _ \<Rightarrow> None)"

definition tt_grouped :: "bool \<Rightarrow> chart_row list \<Rightarrow> track_year list" where
  "tt_grouped url_col df =
     map (\<lambda>((g, y, u, t, a), rs).
            \<lparr>tt_region = g, tt_year = y, tt_track = u, tt_title = t, tt_artist = a,
             tt_streams = sum_col streams rs,
             tt_best_rank = min_col rank rs,
             tt_days_on_chart = nunique (\<lambda>r. Some (date r)) rs\<rparr>)
         (groupby (tt_key url_col) df)"

definition tt_2021 :: "bool \<Rightarrow> chart_row list \<Rightarrow> (track_year \<times> nat) list" where
  "tt_2021 url_col df = rank_year_top tt_region tt_year tt_streams 500 (tt_grouped url_col df)"

subsection \<open>\<^verbatim>\<open>ay_2021\<close>: the top artists\<close>

record artist_year =
  ay_region :: string
  ay_year :: int
  ay_artist :: string
  ay_streams :: int
  ay_track_count :: nat
  ay_days_on_chart :: nat
  ay_best_rank :: int

definition ay_key :: "chart_row \<Rightarrow> (string \<times> int \<times> string) option" where
  "ay_key r = (case artist r of Some a \<Rightarrow> Some (region r, year r, a) | None \<Rightarrow> None)"

definition ay_grouped :: "bool \<Rightarrow> chart_row list \<Rightarrow> artist_year list" where
  "ay_grouped url_col df =
     map (\<lambda>((g, y, a), rs).
            \<lparr>ay_region = g, ay_year = y, ay_artist = a,
             ay_streams = sum_col streams rs,
             ay_track_count = nunique (track_id url_col) rs,
             ay_days_on_chart = nunique (\<lambda>r. Some (date r)) rs,
             ay_best_rank = min_col rank rs\<rparr>)
         (groupby ay_key df)"

definition ay_2021 :: "bool \<Rightarrow> chart_row list \<Rightarrow> (artist_year \<times> nat) list" where
  "ay_2021 url_col df = rank_year_top ay_region ay_year ay_streams 200 (ay_grouped url_col df)"

subsection \<open>Order of rows in a table\<close>

text \<open>\<open>precedes a b xs\<close>: some occurrence of \<open>a\<close> in \<open>xs\<close> has \<open>b\<close> after it.\<close>

fun precedes :: "'a \<Rightarrow> 'a \<Rightarrow> 'a list \<Rightarrow> bool" where
  "precedes a b [] = False"
| "precedes a b (x # xs) = ((x = a \<and> b \<in> set xs) \<or> precedes a b xs)"

section \<open>Writing the three exports\<close>

text \<open>The rows of the three tables as they are written: the columns that the aggregations
  of lines 51 to 92 name, in their order.\<close>

definition ratio_cell :: "rat option \<Rightarrow> cell" where
  "ratio_cell v = (case v of None \<Rightarrow> NA | Some q \<Rightarrow> Ratio q)"

definition cys_to_row :: "cys_row \<Rightarrow> row" where
  "cys_to_row c =
     [(''region'', Text (cys_region c)), (''year'', Number (cys_year c)),
      (''chart_rows'', Number (int (chart_rows c))),
      (''unique_tracks'', Number (int (unique_tracks c))),
      (''unique_artists'', Number (int (unique_artists c))),
      (''total_streams'', Number (total_streams c)),
      (''avg_streams'', ratio_cell (avg_streams c))]"

definition tt_to_row :: "bool \<Rightarrow> track_year \<times> nat \<Rightarrow> row" where
  "tt_to_row url_col p =
     [(''region'', Text (tt_region (fst p))), (''year'', Number (tt_year (fst p))),
      (track_key url_col, Text (tt_track (fst p))),
      (''title'', Text (tt_title (fst p))), (''artist'', Text (tt_artist (fst p))),
      (''streams'', Number (tt_streams (fst p))),
      (''best_rank'', Number (tt_best_rank (fst p))),
      (''days_on_chart'', Number (int (tt_days_on_chart (fst p)))),
      (''rank_year'', Number (int (rank_year p)))]"

definition ay_to_row :: "artist_year \<times> nat \<Rightarrow> row" where
  "ay_to_row p =
     [(''region'', Text (ay_region (fst p))), (''year'', Number (ay_year (fst p))),
      (''artist'', Text (ay_artist (fst p))),
      (''streams'', Number (ay_streams (fst p))),
      (''track_count'', Number (int (ay_track_count (fst p)))),
      (''days_on_chart'', Number (int (ay_days_on_chart (fst p)))),
      (''best_rank'', Number (ay_best_rank (fst p))),
      (''rank_year'', Number (int (rank_year p)))]"

definition cys_columns :: "string list" where
  "cys_columns = [''region'', ''year'', ''chart_rows'', ''unique_tracks'', ''unique_artists'',
     ''total_streams'', ''avg_streams'']"

definition tt_columns :: "bool \<Rightarrow> string list" where
  "tt_columns url_col = [''region'', ''year'', track_key url_col, ''title'', ''artist'',
     ''streams'', ''best_rank'', ''days_on_chart'', ''rank_year'']"

definition ay_columns :: "string list" where
  "ay_columns = [''region'', ''year'', ''artist'', ''streams'', ''track_count'',
     ''days_on_chart'', ''best_rank'', ''rank_year'']"

text \<open>The paths and key lists of the three calls of lines 109 to 125.\<close>

definition cys_path :: string where
  "cys_path = ''country_year_summary.parquet''"

definition tt_path :: string where
  "tt_path = ''top_tracks_country_year_top500.parquet''"

definition ay_path :: string where
  "ay_path = ''artist_country_year_top200.parquet''"

definition cys_subset_keys :: "string list" where
  "cys_subset_keys = [''region'', ''year'']"

definition tt_subset_keys :: "bool \<Rightarrow> string list" where
  "tt_subset_keys url_col = [''region'', ''year'', track_key url_col]"

definition ay_subset_keys :: "string list" where
  "ay_subset_keys = [''region'', ''year'', ''artist'']"

text \<open>The script from the cleanup on: the three tables are built, then merged into the
  exports one after the other. An exception of an aggregation ends the run before any
  write.\<close>

definition backfill ::
  "(string \<Rightarrow> timestamp option) \<Rightarrow> (string \<Rightarrow> int option) \<Rightarrow> bool \<Rightarrow> csv_row list \<Rightarrow> files
     \<Rightarrow> error + files" where
  "backfill to_datetime to_numeric url_col df exports =
     (let d = df_2021 to_datetime to_numeric df in
      case cys_2021 url_col d of
        Inl e \<Rightarrow> Inl e
      | Inr cys \<Rightarrow>
          (let tt = tt_2021 url_col d;
               ay = ay_2021 url_col d;
               e1 = append_dedupe exports cys_path (map cys_to_row cys) cys_subset_keys;
               e2 = append_dedupe e1 tt_path (map (tt_to_row url_col) tt) (tt_subset_keys url_col);
               e3 = append_dedupe e2 ay_path (map ay_to_row ay) ay_subset_keys
           in Inr e3))"

section \<open>The columns the dashboards read\<close>

text \<open>The column names that \<^verbatim>\<open>app.py\<close> (Streamlit) and
  \<^verbatim>\<open>Shiny_migration/app.py\<close> index the three loaded tables with. Columns the
  dashboards add themselves (\<^verbatim>\<open>metric_val\<close>, \<^verbatim>\<open>color_val\<close>, \<^verbatim>\<open>label\<close>) are not
  read from the tables.\<close>

definition streamlit_cys_reads :: "string list" where
  "streamlit_cys_reads = [''year'', ''iso3'', ''country'', ''total_streams'', ''unique_artists'',
     ''unique_tracks'', ''avg_rank'']"

definition streamlit_tt_reads :: "string list" where
  "streamlit_tt_reads = [''year'', ''country'', ''streams_sum'', ''track_name'', ''artist_name'',
     ''best_rank'', ''days_charted'']"

definition streamlit_ay_reads :: "string list" where
  "streamlit_ay_reads = [''year'', ''artist_name'', ''streams_sum'', ''country'']"

definition shiny_cys_reads :: "string list" where
  "shiny_cys_reads = [''year'', ''iso3'', ''country'', ''total_streams'', ''unique_artists'',
     ''unique_tracks'', ''avg_rank'']"

definition shiny_tt_reads :: "string list" where
  "shiny_tt_reads = [''country'', ''year'', ''streams_sum'', ''track_name'', ''artist_name'',
     ''best_rank'', ''days_charted'']"

definition shiny_ay_reads :: "string list" where
  "shiny_ay_reads = [''year'', ''artist_name'', ''streams_sum'', ''country'']"

section \<open>The track identifier in the specification's words\<close>


section \<open>Example inputs\<close>

text \<open>Two parsers to evaluate the cleanup with: decimal digits for
  \<open>to_numeric\<close>, and dates written \<^verbatim>\<open>YYYY-MM-DD\<close> for \<open>to_datetime\<close>.\<close>

definition digit_of :: "char \<Rightarrow> nat option" where
  "digit_of c = (if CHR ''0'' \<le> c \<and> c \<le> CHR ''9'' then Some (of_char c - 48) else None)"

fun nat_of_digits :: "nat \<Rightarrow> string \<Rightarrow> nat option" where
  "nat_of_digits acc [] = Some acc"
| "nat_of_digits acc (c # cs) =
     (case digit_of c of None \<Rightarrow> None | Some d \<Rightarrow> nat_of_digits (10 * acc + d) cs)"

definition parse_nat :: "string \<Rightarrow> nat option" where
  "parse_nat s = (if s = [] then None else nat_of_digits 0 s)"

definition digits_numeric :: "string \<Rightarrow> int option" where
  "digits_numeric s = map_option int (parse_nat s)"

definition iso_datetime :: "string \<Rightarrow> timestamp option" where
  "iso_datetime s =
     (if length s = 10 \<and> s ! 4 = CHR ''-'' \<and> s ! 7 = CHR ''-'' then
        (case (parse_nat (take 4 s), parse_nat (take 2 (drop 5 s)), parse_nat (drop 8 s)) of
           (Some y, Some m, Some d) \<Rightarrow> Some (int y, m, d)
         | _ \<Rightarrow> None)
      else None)"

text \<open>A line of the chart \<^verbatim>\<open>top200\<close>: title, rank, date, artist, url, region, streams.\<close>

definition csv_line ::
  "string \<Rightarrow> string \<Rightarrow> string \<Rightarrow> string \<Rightarrow> string option \<Rightarrow> string \<Rightarrow> string option \<Rightarrow> csv_row" where
  "csv_line t k d a u g s =
     \<lparr>csv_title = Some t, csv_rank = Some k, csv_date = Some d, csv_artist = Some a,
      csv_url = u, csv_region = Some g, csv_chart = Some ''top200'', csv_streams = s\<rparr>"

text \<open>One track charted under two titles.\<close>

definition retitled_csv :: "csv_row list" where
  "retitled_csv =
     [csv_line ''Song'' ''1'' ''2021-01-01'' ''X'' (Some ''u1'') ''Global'' (Some ''10''),
      csv_line ''Song (Remix)'' ''2'' ''2021-06-01'' ''X'' (Some ''u1'') ''Global'' (Some ''7'')]"








definition with_url_row :: chart_row where
  "with_url_row = \<lparr>title = Some ''Song'', rank = 3, date = (2021, 2, 3), artist = Some ''X'',
     url = Some ''u1'', region = ''US'', chart = ''top200'', streams = Some 100, year = 2021\<rparr>"

definition no_url_row :: chart_row where
  "no_url_row = \<lparr>title = Some ''Other'', rank = 5, date = (2021, 2, 3), artist = Some ''Y'',
     url = None, region = ''US'', chart = ''top200'', streams = Some 40, year = 2021\<rparr>"






text \<open>Three tracks of one region by three artists; two of them tie on streams. The
  grouped rows they give are built with \<open>tie_track\<close> and \<open>tie_artist\<close>.\<close>

definition tie_csv :: "csv_row list" where
  "tie_csv =
     [csv_line ''T2'' ''2'' ''2021-01-01'' ''Y'' (Some ''u2'') ''US'' (Some ''50''),
      csv_line ''T1'' ''1'' ''2021-01-01'' ''X'' (Some ''u1'') ''US'' (Some ''50''),
      csv_line ''T3'' ''3'' ''2021-01-01'' ''Z'' (Some ''u3'') ''US'' (Some ''70'')]"

definition tie_track :: "string \<Rightarrow> string \<Rightarrow> string \<Rightarrow> int \<Rightarrow> int \<Rightarrow> track_year" where
  "tie_track u t a s k = \<lparr>tt_region = ''US'', tt_year = 2021, tt_track = u, tt_title = t,
     tt_artist = a, tt_streams = s, tt_best_rank = k, tt_days_on_chart = 1\<rparr>"

definition tie_artist :: "string \<Rightarrow> int \<Rightarrow> int \<Rightarrow> artist_year" where
  "tie_artist a s k = \<lparr>ay_region = ''US'', ay_year = 2021, ay_artist = a, ay_streams = s,
     ay_track_count = 1, ay_days_on_chart = 1, ay_best_rank = k\<rparr>"

section \<open>Reading the summary\<close>

text \<open>The rows of the country-year summary of a table that has a url column.\<close>

definition cys_of :: "chart_row list \<Rightarrow> cys_row list" where
  "cys_of df = (case cys_2021 True df of Inr out \<Rightarrow> out | Inl e \<Rightarrow> [])"

section \<open>Properties of \<open>drop_duplicates\<close>\<close>

lemma set_drop_duplicates_subset: "set (drop_duplicates ks xs) \<subseteq> set xs"
  by (induction xs) auto

lemma keys_drop_duplicates:
  "row_key ks ` set (drop_duplicates ks xs) = row_key ks ` set xs"
  by (induction xs) auto

lemma unique_keys_drop_duplicates: "unique_keys ks (drop_duplicates ks xs)"
proof (induction xs)
  case Nil
  show ?case by (simp add: unique_keys_def)
next
  case (Cons r rs)
  have "row_key ks r \<notin> row_key ks ` set rs \<Longrightarrow>
        row_key ks r \<notin> row_key ks ` set (drop_duplicates ks rs)"
    by (simp add: keys_drop_duplicates)
  with Cons show ?case by (auto simp: unique_keys_def)
qed

lemma drop_duplicates_unique: "unique_keys ks xs \<Longrightarrow> drop_duplicates ks xs = xs"
  by (induction xs) (auto simp: unique_keys_def)

lemma drop_duplicates_append:
  "drop_duplicates ks (xs @ ys) =
     filter (\<lambda>r. row_key ks r \<notin> row_key ks ` set ys) (drop_duplicates ks xs)
     @ drop_duplicates ks ys"
proof (induction xs)
  case Nil
  show ?case by simp
next
  case (Cons r rs)
  show ?case
  proof (cases "row_key ks r \<in> row_key ks ` set rs")
    case True
    then show ?thesis using Cons by simp
  next
    case False
    then show ?thesis using Cons by (auto simp: image_Un)
  qed
qed

lemma drop_duplicates_idem: "drop_duplicates ks (drop_duplicates ks xs) = drop_duplicates ks xs"
  by (simp add: drop_duplicates_unique unique_keys_drop_duplicates)

text \<open>Merging the same new rows into an already merged table changes nothing.\<close>

lemma drop_duplicates_again:
  "drop_duplicates ks (drop_duplicates ks (xs @ ys) @ ys) = drop_duplicates ks (xs @ ys)"
proof -
  let ?P = "\<lambda>r. row_key ks r \<notin> row_key ks ` set ys"
  have "drop_duplicates ks (drop_duplicates ks (xs @ ys) @ ys)
      = filter ?P (drop_duplicates ks (drop_duplicates ks (xs @ ys))) @ drop_duplicates ks ys"
    by (rule drop_duplicates_append)
  also have "\<dots> = filter ?P (drop_duplicates ks (xs @ ys)) @ drop_duplicates ks ys"
    by (simp add: drop_duplicates_idem)
  also have "filter ?P (drop_duplicates ks (xs @ ys))
      = filter ?P (filter ?P (drop_duplicates ks xs)) @ filter ?P (drop_duplicates ks ys)"
    by (simp add: drop_duplicates_append)
  also have "filter ?P (drop_duplicates ks ys) = []"
    using set_drop_duplicates_subset [of ks ys] by (auto simp: filter_empty_conv)
  finally show ?thesis by (simp add: drop_duplicates_append)
qed

lemma append_dedupe_absent:
  "fs p = None \<Longrightarrow> append_dedupe fs p new ks p = Some new"
  by (simp add: append_dedupe_def)

lemma append_dedupe_present:
  "fs p = Some old \<Longrightarrow> append_dedupe fs p new ks p = Some (drop_duplicates ks (old @ new))"
  by (simp add: append_dedupe_def)

lemma append_dedupe_other: "q \<noteq> p \<Longrightarrow> append_dedupe fs p new ks q = fs q"
  by (simp add: append_dedupe_def Let_def)

section \<open>Properties of the ranking step\<close>

lemma cumcount_from_group:
  "filter (\<lambda>(e, k). g e = c) (zip xs (map Suc (cumcount_from g seen xs)))
   = zip (filter (\<lambda>e. g e = c) xs)
       [Suc (length (filter (\<lambda>e. g e = c) seen)) ..<
        Suc (length (filter (\<lambda>e. g e = c) seen) + length (filter (\<lambda>e. g e = c) xs))]"
proof (induction xs arbitrary: seen)
  case Nil
  show ?case by simp
next
  case (Cons x xs)
  show ?case
  proof (cases "g x = c")
    case True
    let ?s = "length (filter (\<lambda>e. g e = c) seen)"
    let ?n = "length (filter (\<lambda>e. g e = c) xs)"
    have "[Suc ?s ..< Suc (?s + Suc ?n)] = Suc ?s # [Suc (Suc ?s) ..< Suc (Suc ?s + ?n)]"
      by (simp add: upt_conv_Cons del: upt_Suc)
    then show ?thesis
      using True Cons [of "seen @ [x]"] by (simp del: upt_Suc)
  next
    case False
    then show ?thesis
      using Cons [of "seen @ [x]"] by (simp del: upt_Suc)
  qed
qed

lemma cumcount_group:
  "filter (\<lambda>(e, k). g e = c) (zip xs (map Suc (cumcount g xs)))
   = zip (filter (\<lambda>e. g e = c) xs) [1 ..< Suc (length (filter (\<lambda>e. g e = c) xs))]"
  using cumcount_from_group [of g c xs "[]"] by (simp add: cumcount_def del: upt_Suc)

lemma filter_rank_le:
  "filter (\<lambda>(e, k). k \<le> L) (zip ys [a ..< a + length ys])
   = zip (take (Suc L - a) ys) [a ..< a + min (length ys) (Suc L - a)]"
proof (induction ys arbitrary: a)
  case Nil
  show ?case by simp
next
  case (Cons y ys)
  have upt: "[a ..< a + length (y # ys)] = a # [Suc a ..< Suc a + length ys]"
    by (simp add: upt_conv_Cons del: upt_Suc)
  show ?case
  proof (cases "a \<le> L")
    case True
    then have s: "Suc L - a = Suc (L - a)" by simp
    show ?thesis
      unfolding upt using Cons [of "Suc a"] True
      by (simp add: s upt_conv_Cons del: upt_Suc)
  next
    case False
    then have s: "Suc L - a = 0" "Suc L - Suc a = 0" by simp_all
    show ?thesis
      unfolding upt using Cons [of "Suc a"] False
      by (simp add: s del: upt_Suc)
  qed
qed

lemma filter_rank_le_1:
  "filter (\<lambda>(e, k). k \<le> L) (zip ys [1 ..< Suc (length ys)])
   = zip (take L ys) [1 ..< Suc (min (length ys) L)]"
  using filter_rank_le [of L ys 1] by (simp del: upt_Suc)

lemma insort_key_cong_on:
  "(\<And>y. y \<in> set ys \<Longrightarrow> (f x \<le> f y) = (h x \<le> h y)) \<Longrightarrow>
   insort_key f x ys = insort_key h x ys"
  by (induction ys) auto

lemma sort_key_cong_on:
  "(\<And>x y. x \<in> set xs \<Longrightarrow> y \<in> set xs \<Longrightarrow> (f x \<le> f y) = (h x \<le> h y)) \<Longrightarrow>
   sort_key f xs = sort_key h xs"
proof (induction xs)
  case Nil
  show ?case by simp
next
  case (Cons x xs)
  have "sort_key f xs = sort_key h xs" using Cons by simp
  moreover have "insort_key f x (sort_key h xs) = insort_key h x (sort_key h xs)"
    by (rule insort_key_cong_on) (simp add: Cons.prems)
  ultimately show ?case by simp
qed

lemma sort_group:
  fixes reg :: "'a \<Rightarrow> string" and yr :: "'a \<Rightarrow> int" and str :: "'a \<Rightarrow> int"
  shows "filter (\<lambda>e. (reg e, yr e) = c) (sort_key (\<lambda>e. (reg e, yr e, - str e)) agg)
       = sort_key (\<lambda>e. - str e) (filter (\<lambda>e. (reg e, yr e) = c) agg)"
proof -
  have "filter (\<lambda>e. (reg e, yr e) = c) (sort_key (\<lambda>e. (reg e, yr e, - str e)) agg)
      = sort_key (\<lambda>e. (reg e, yr e, - str e)) (filter (\<lambda>e. (reg e, yr e) = c) agg)"
    by (rule filter_sort)
  also have "\<dots> = sort_key (\<lambda>e. - str e) (filter (\<lambda>e. (reg e, yr e) = c) agg)"
    by (rule sort_key_cong_on) (auto simp: less_eq_prod_def)
  finally show ?thesis .
qed


lemma rank_year_top_group:
  fixes reg :: "'a \<Rightarrow> string" and yr :: "'a \<Rightarrow> int" and str :: "'a \<Rightarrow> int"
  defines "Y c agg \<equiv> sort_key (\<lambda>e. - str e) (filter (\<lambda>e. (reg e, yr e) = c) agg)"
  shows "filter (\<lambda>(e, k). (reg e, yr e) = c) (rank_year_top reg yr str L agg)
       = zip (take L (Y c agg)) [1 ..< Suc (min (length (Y c agg)) L)]"
proof -
  let ?S = "sort_key (\<lambda>e. (reg e, yr e, - str e)) agg"
  let ?g = "\<lambda>e. (reg e, yr e)"
  have "filter (\<lambda>(e, k). ?g e = c) (rank_year_top reg yr str L agg)
      = filter (\<lambda>(e, k). k \<le> L) (filter (\<lambda>(e, k). ?g e = c) (zip ?S (map Suc (cumcount ?g ?S))))"
    by (simp add: rank_year_top_def Let_def conj_commute)
  also have "filter (\<lambda>(e, k). ?g e = c) (zip ?S (map Suc (cumcount ?g ?S)))
      = zip (filter (\<lambda>e. ?g e = c) ?S) [1 ..< Suc (length (filter (\<lambda>e. ?g e = c) ?S))]"
    by (rule cumcount_group)
  also have "filter (\<lambda>e. ?g e = c) ?S = Y c agg"
    unfolding Y_def by (rule sort_group)
  finally show ?thesis by (simp only: filter_rank_le_1)
qed

lemma in_zip_upt:
  "(x, k) \<in> set (zip xs [Suc 0 ..< Suc m]) \<longleftrightarrow>
     Suc 0 \<le> k \<and> k \<le> m \<and> k \<le> length xs \<and> xs ! (k - Suc 0) = x"
proof
  assume "(x, k) \<in> set (zip xs [Suc 0 ..< Suc m])"
  then obtain i where i: "i < length xs" "i < m" "xs ! i = x" "[Suc 0 ..< Suc m] ! i = k"
    by (auto simp: in_set_zip simp del: upt_Suc)
  then have "k = Suc i" by (simp del: upt_Suc)
  with i show "Suc 0 \<le> k \<and> k \<le> m \<and> k \<le> length xs \<and> xs ! (k - Suc 0) = x" by simp
next
  assume a: "Suc 0 \<le> k \<and> k \<le> m \<and> k \<le> length xs \<and> xs ! (k - Suc 0) = x"
  then have k: "k - Suc 0 < length xs" "k - Suc 0 < m" by arith+
  then have "[Suc 0 ..< Suc m] ! (k - Suc 0) = k" using a by (simp del: upt_Suc)
  with a k show "(x, k) \<in> set (zip xs [Suc 0 ..< Suc m])"
    unfolding in_set_zip by (intro exI [of _ "k - Suc 0"]) (simp del: upt_Suc)
qed

lemma precedes_filter:
  "precedes a b xs \<Longrightarrow> P a \<Longrightarrow> P b \<Longrightarrow> precedes a b (filter P xs)"
  by (induction xs) auto

lemma precedes_of_filter: "precedes a b (filter P xs) \<Longrightarrow> precedes a b xs"
  by (induction xs) (auto split: if_splits)

lemma precedes_sort_key:
  assumes "precedes a b xs" and "f a = f b"
  shows "precedes a b (sort_key f xs)"
proof -
  have "precedes a b (filter (\<lambda>y. f y = f a) xs)"
    using assms by (simp add: precedes_filter)
  then have "precedes a b (filter (\<lambda>y. f y = f a) (sort_key f xs))"
    by (simp only: sort_key_stable)
  then show ?thesis by (rule precedes_of_filter)
qed

lemma precedes_nth:
  "precedes a b xs \<Longrightarrow> \<exists>i j. i < j \<and> j < length xs \<and> xs ! i = a \<and> xs ! j = b"
proof (induction xs)
  case Nil
  then show ?case by simp
next
  case (Cons x xs)
  show ?case
  proof (cases "x = a \<and> b \<in> set xs")
    case True
    then obtain j where "j < length xs" "xs ! j = b" by (auto simp: in_set_conv_nth)
    with True have "0 < Suc j \<and> Suc j < length (x # xs) \<and> (x # xs) ! 0 = a \<and> (x # xs) ! Suc j = b"
      by simp
    then show ?thesis by blast
  next
    case False
    with Cons obtain i j where "i < j" "j < length xs" "xs ! i = a" "xs ! j = b" by auto
    then have "Suc i < Suc j \<and> Suc j < length (x # xs) \<and> (x # xs) ! Suc i = a \<and> (x # xs) ! Suc j = b"
      by simp
    then show ?thesis by blast
  qed
qed

lemma precedes_before_index:
  assumes "precedes a b xs" and "distinct xs" and "j < length xs" and "xs ! j = b"
  shows "\<exists>i<j. xs ! i = a"
proof -
  obtain i j' where ij: "i < j'" "j' < length xs" "xs ! i = a" "xs ! j' = b"
    using precedes_nth [OF assms(1)] by blast
  with assms have "j' = j" by (metis nth_eq_iff_index_eq)
  with ij show ?thesis by blast
qed

lemma rank_year_top_member:
  fixes reg :: "'a \<Rightarrow> string" and yr :: "'a \<Rightarrow> int" and str :: "'a \<Rightarrow> int"
  defines "Y c agg \<equiv> sort_key (\<lambda>e. - str e) (filter (\<lambda>e. (reg e, yr e) = c) agg)"
  shows "(e, k) \<in> set (rank_year_top reg yr str L agg) \<and> (reg e, yr e) = c \<longleftrightarrow>
         Suc 0 \<le> k \<and> k \<le> length (Y c agg) \<and> k \<le> L \<and> Y c agg ! (k - Suc 0) = e"
proof -
  let ?out = "rank_year_top reg yr str L agg"
  have "(e, k) \<in> set ?out \<and> (reg e, yr e) = c \<longleftrightarrow>
        (e, k) \<in> set (filter (\<lambda>(e, k). (reg e, yr e) = c) ?out)" by auto
  also have "\<dots> \<longleftrightarrow>
        (e, k) \<in> set (zip (take L (Y c agg)) [Suc 0 ..< Suc (min (length (Y c agg)) L)])"
    unfolding Y_def by (simp only: rank_year_top_group One_nat_def)
  also have "\<dots> \<longleftrightarrow> Suc 0 \<le> k \<and> k \<le> min (length (Y c agg)) L \<and>
        k \<le> length (take L (Y c agg)) \<and> take L (Y c agg) ! (k - Suc 0) = e"
    by (rule in_zip_upt)
  also have "\<dots> \<longleftrightarrow> Suc 0 \<le> k \<and> k \<le> length (Y c agg) \<and> k \<le> L \<and> Y c agg ! (k - Suc 0) = e"
    by (cases k) auto
  finally show ?thesis .
qed

lemma rank_year_top_stable:
  fixes reg :: "'a \<Rightarrow> string" and yr :: "'a \<Rightarrow> int" and str :: "'a \<Rightarrow> int"
  assumes d: "distinct agg" and p: "precedes a b agg"
    and g: "reg a = reg b" "yr a = yr b" and s: "str a = str b"
    and b: "(b, kb) \<in> set (rank_year_top reg yr str L agg)"
  shows "(\<exists>ka<kb. (a, ka) \<in> set (rank_year_top reg yr str L agg)) \<and>
         (\<forall>k. (a, k) \<in> set (rank_year_top reg yr str L agg) \<longrightarrow> k < kb)"
proof -
  define Y where "Y = sort_key (\<lambda>e. - str e) (filter (\<lambda>e. (reg e, yr e) = (reg b, yr b)) agg)"
  define out where "out = rank_year_top reg yr str L agg"
  have mem: "(e, k) \<in> set out \<and> (reg e, yr e) = (reg b, yr b) \<longleftrightarrow>
             Suc 0 \<le> k \<and> k \<le> length Y \<and> k \<le> L \<and> Y ! (k - Suc 0) = e" for e k
    unfolding Y_def out_def by (rule rank_year_top_member)
  have dY: "distinct Y" using d by (simp add: Y_def)
  have "precedes a b (filter (\<lambda>e. (reg e, yr e) = (reg b, yr b)) agg)"
    using p g by (intro precedes_filter) simp_all
  then have pY: "precedes a b Y"
    unfolding Y_def using s by (intro precedes_sort_key) simp_all
  have "(b, kb) \<in> set out \<and> (reg b, yr b) = (reg b, yr b)" using b by (simp add: out_def)
  then have kb: "Suc 0 \<le> kb \<and> kb \<le> length Y \<and> kb \<le> L \<and> Y ! (kb - Suc 0) = b"
    by (simp only: mem)
  then have kbl: "kb - Suc 0 < length Y" by arith
  from kb have kbb: "Y ! (kb - Suc 0) = b" by simp
  from precedes_before_index [OF pY dY kbl kbb]
  obtain i where i: "i < kb - Suc 0" "Y ! i = a" by blast
  have il: "i < length Y" using i(1) kbl by simp
  have "Suc i \<le> length Y \<and> Suc i \<le> L" using i(1) kb by arith
  then have "Suc 0 \<le> Suc i \<and> Suc i \<le> length Y \<and> Suc i \<le> L \<and> Y ! (Suc i - Suc 0) = a"
    using i(2) by simp
  then have "(a, Suc i) \<in> set out \<and> (reg a, yr a) = (reg b, yr b)" by (simp only: mem)
  then have 1: "(a, Suc i) \<in> set out" by simp
  have 2: "Suc i < kb" using i by simp
  have 3: "k < kb" if "(a, k) \<in> set out" for k
  proof -
    from that g have "(a, k) \<in> set out \<and> (reg a, yr a) = (reg b, yr b)" by simp
    then have k: "Suc 0 \<le> k \<and> k \<le> length Y \<and> k \<le> L \<and> Y ! (k - Suc 0) = a"
      by (simp only: mem)
    then have kl: "k - Suc 0 < length Y" by arith
    from k have "Y ! (k - Suc 0) = Y ! i" using i(2) by simp
    then have "k - Suc 0 = i" using dY kl il by (simp add: nth_eq_iff_index_eq)
    with i(1) show ?thesis by arith
  qed
  from 1 2 3 show ?thesis unfolding out_def by blast
qed


lemma rank_year_top_entries:
  fixes reg :: "'a \<Rightarrow> string" and yr :: "'a \<Rightarrow> int" and str :: "'a \<Rightarrow> int"
  shows "map fst (filter (\<lambda>(e, k). (reg e, yr e) = c) (rank_year_top reg yr str L agg))
       = take L (sort_key (\<lambda>e. - str e) (filter (\<lambda>e. (reg e, yr e) = c) agg))"
  by (simp only: rank_year_top_group) (simp del: upt_Suc)




section \<open>Properties of grouping\<close>

lemma groupby_keys: "map fst (groupby by df) = sort (remdups (List.map_filter by df))"
  by (simp add: groupby_def comp_def)

lemma distinct_groupby: "distinct (map fst (groupby by df))"
  by (simp add: groupby_keys)

lemma groupby_rows:
  "(k, rs) \<in> set (groupby by df) \<Longrightarrow> rs = filter (\<lambda>r. by r = Some k) df \<and> rs \<noteq> []"
  by (auto simp: groupby_def List.map_filter_def filter_empty_conv)

lemma distinct_of_key:
  assumes "distinct (map fst gs)" and "\<And>k rs. key (F (k, rs)) = k"
  shows "distinct (map F gs)"
proof -
  have eq: "map key (map F gs) = map fst gs" using assms(2) by (induction gs) auto
  have "distinct (map key (map F gs))" unfolding eq by (rule assms(1))
  then show ?thesis by (simp only: distinct_map)
qed

lemma distinct_tt_grouped: "distinct (tt_grouped uc df)"
  unfolding tt_grouped_def
  by (rule distinct_of_key [where key = "\<lambda>e. (tt_region e, tt_year e, tt_track e, tt_title e, tt_artist e)"])
    (auto simp: distinct_groupby)

lemma distinct_ay_grouped: "distinct (ay_grouped uc df)"
  unfolding ay_grouped_def
  by (rule distinct_of_key [where key = "\<lambda>e. (ay_region e, ay_year e, ay_artist e)"])
    (auto simp: distinct_groupby)

section \<open>Properties of the cleanup\<close>


lemma clean_row_Some:
  "qualifies td tn r \<Longrightarrow>
   clean_row td tn r =
     Some \<lparr>title = csv_title r, rank = the (Option.bind (csv_rank r) tn),
       date = the (Option.bind (csv_date r) td), artist = csv_artist r, url = csv_url r,
       region = the (csv_region r), chart = the (csv_chart r),
       streams = Option.bind (csv_streams r) tn, year = 2021\<rparr>"
  by (auto simp: qualifies_def clean_row_def split: option.splits bind_splits)



section \<open>The example inputs evaluated\<close>

lemmas example_parsers = iso_datetime_def parse_nat_def digit_of_def digits_numeric_def
  csv_line_def lower_def lower_char_def

lemma retitled_clean:
  "df_2021 iso_datetime digits_numeric retitled_csv =
     [\<lparr>title = Some ''Song'', rank = 1, date = (2021, 1, 1), artist = Some ''X'',
       url = Some ''u1'', region = ''Global'', chart = ''top200'', streams = Some 10, year = 2021\<rparr>,
      \<lparr>title = Some ''Song (Remix)'', rank = 2, date = (2021, 6, 1), artist = Some ''X'',
       url = Some ''u1'', region = ''Global'', chart = ''top200'', streams = Some 7, year = 2021\<rparr>]"
  by (simp add: retitled_csv_def df_2021_def clean_row_def List.map_filter_simps example_parsers)

lemma retitled_tt:
  "map (tt_to_row True) (tt_2021 True (df_2021 iso_datetime digits_numeric retitled_csv))
     = [retitled_a, retitled_b]"
  unfolding retitled_clean
  by (simp add: tt_2021_def tt_grouped_def groupby_def tt_key_def track_id_def
      List.map_filter_simps rank_year_top_def cumcount_def tt_to_row_def track_key_def
      sum_col_def min_col_def nunique_def rank_year_def retitled_a_def retitled_b_def
      less_eq_prod_def less_prod_def)


section \<open>Merging again\<close>

text \<open>When the table exists, the written table has unique keys and a second merge of the
  same new rows writes the same table; with no table, the same holds if no key repeats in
  the new rows.\<close>

lemma append_dedupe_present_unique:
  "fs p = Some old \<Longrightarrow>
   \<exists>t. append_dedupe fs p new ks p = Some t \<and> unique_keys ks t"
  by (simp add: append_dedupe_present unique_keys_drop_duplicates)

lemma append_dedupe_present_again:
  assumes "fs p = Some old"
  shows "append_dedupe (append_dedupe fs p new ks) p new ks = append_dedupe fs p new ks"
proof
  fix q
  show "append_dedupe (append_dedupe fs p new ks) p new ks q = append_dedupe fs p new ks q"
    using assms by (simp add: append_dedupe_def Let_def drop_duplicates_again)
qed

lemma append_dedupe_absent_again:
  assumes "fs p = None" and "unique_keys ks new"
  shows "append_dedupe (append_dedupe fs p new ks) p new ks = append_dedupe fs p new ks"
proof
  fix q
  have "drop_duplicates ks (new @ new) = new"
    using assms(2) drop_duplicates_again [of ks "[]" new]
    by (simp add: drop_duplicates_unique)
  then show "append_dedupe (append_dedupe fs p new ks) p new ks q = append_dedupe fs p new ks q"
    using assms(1) by (simp add: append_dedupe_def Let_def)
qed

section \<open>Properties of the aggregations\<close>





lemma set_map_filter: "set (List.map_filter f rs) = {v. \<exists>r\<in>set rs. f r = Some v}"
  by (induction rs) (auto simp: List.map_filter_simps split: option.splits)


lemma groupby_key_set: "fst ` set (groupby by df) = {k. \<exists>r\<in>set df. by r = Some k}"
proof -
  have "fst ` set (groupby by df) = set (map fst (groupby by df))" by simp
  also have "\<dots> = {k. \<exists>r\<in>set df. by r = Some k}"
    by (simp only: groupby_keys) (simp add: set_map_filter)
  finally show ?thesis .
qed

lemma groupby_filter_none:
  assumes "\<And>r. \<not> P r \<Longrightarrow> by r = None"
  shows "groupby by (filter P df) = groupby by df"
proof -
  have 1: "List.map_filter by (filter P df) = List.map_filter by df"
    using assms by (induction df) (auto simp: List.map_filter_simps split: option.splits)
  have 2: "filter (\<lambda>r. P r \<and> by r = Some k) df = filter (\<lambda>r. by r = Some k) df" for k
  proof (intro filter_cong refl)
    fix r assume "r \<in> set df"
    show "(P r \<and> by r = Some k) = (by r = Some k)"
      using assms [of r] by (cases "P r") simp_all
  qed
  show ?thesis by (simp add: groupby_def 1 2)
qed

lemma cys_2021_url: "cys_2021 True df = Inr (cys_of df)"
  by (simp add: cys_of_def cys_2021_def)

lemma cys_row_cases:
  assumes "c \<in> set (cys_of df)"
  obtains rs where "rs = filter (\<lambda>r. region r = cys_region c \<and> year r = cys_year c) df"
    and "rs \<noteq> []"
    and "chart_rows c = length rs" and "unique_tracks c = nunique url rs"
    and "unique_artists c = nunique artist rs" and "total_streams c = sum_col streams rs"
    and "avg_streams c = mean_col streams rs"
proof -
  from assms obtain g y rs where grp: "((g, y), rs) \<in> set (groupby (\<lambda>r. Some (region r, year r)) df)"
    and c: "c = \<lparr>cys_region = g, cys_year = y, chart_rows = length rs,
              unique_tracks = nunique url rs, unique_artists = nunique artist rs,
              total_streams = sum_col streams rs, avg_streams = mean_col streams rs\<rparr>"
    by (auto simp: cys_of_def cys_2021_def)
  from groupby_rows [OF grp]
  have r1: "rs = filter (\<lambda>r. Some (region r, year r) = Some (g, y)) df" and r2: "rs \<noteq> []"
    by blast+
  from r1 have "rs = filter (\<lambda>r. region r = g \<and> year r = y) df" by simp
  with c r2 that show thesis by simp
qed

lemma cys_regions:
  "(\<lambda>c. (cys_region c, cys_year c)) ` set (cys_of df) = (\<lambda>r. (region r, year r)) ` set df"
proof -
  let ?F = "\<lambda>((g, y), rs). \<lparr>cys_region = g, cys_year = y, chart_rows = length rs,
              unique_tracks = nunique url rs, unique_artists = nunique artist rs,
              total_streams = sum_col streams rs, avg_streams = mean_col streams rs\<rparr>"
  let ?G = "groupby (\<lambda>r. Some (region r, year r)) df"
  have "(\<lambda>c. (cys_region c, cys_year c)) ` set (cys_of df)
      = (\<lambda>p. (cys_region (?F p), cys_year (?F p))) ` set ?G"
    by (simp add: cys_of_def cys_2021_def image_image)
  also have "\<dots> = fst ` set ?G"
    by (rule image_cong) auto
  also have "\<dots> = (\<lambda>r. (region r, year r)) ` set df"
    by (simp only: groupby_key_set) auto
  finally show ?thesis .
qed





section \<open>Properties of the track identifier\<close>

lemma length_filter_remove1:
  "r \<in> set df \<Longrightarrow> P r \<Longrightarrow> length (filter P df) = Suc (length (filter P (remove1 r df)))"
  by (induction df) auto

lemma sum_col_filter_remove1:
  "r \<in> set df \<Longrightarrow> P r \<Longrightarrow>
   sum_col f (filter P df) =
     (case f r of None \<Rightarrow> 0 | Some s \<Rightarrow> s) + sum_col f (filter P (remove1 r df))"
  by (induction df) (auto simp: sum_col_def List.map_filter_simps split: option.splits)

lemma tt_grouped_without_missing:
  "tt_grouped uc (filter (\<lambda>r. track_id uc r \<noteq> None) df) = tt_grouped uc df"
proof -
  have "groupby (tt_key uc) (filter (\<lambda>r. track_id uc r \<noteq> None) df) = groupby (tt_key uc) df"
    by (rule groupby_filter_none) (simp add: tt_key_def)
  then show ?thesis by (simp add: tt_grouped_def)
qed

lemma qualifies_without_url:
  "qualifies td tn l \<Longrightarrow>
   qualifies td tn (l\<lparr>csv_url := None\<rparr>) \<and>
   map_option url (clean_row td tn (l\<lparr>csv_url := None\<rparr>)) = Some None"
proof -
  assume q: "qualifies td tn l"
  then have q': "qualifies td tn (l\<lparr>csv_url := None\<rparr>)" by (simp add: qualifies_def)
  from clean_row_Some [OF q'] show ?thesis using q' by simp
qed

lemma cys_counts_row:
  assumes r: "r \<in> set df"
  shows "\<exists>c\<in>set (cys_of df). cys_region c = region r \<and> cys_year c = year r \<and>
           chart_rows c =
             Suc (length (filter (\<lambda>x. region x = region r \<and> year x = year r) (remove1 r df))) \<and>
           total_streams c =
             (case streams r of None \<Rightarrow> 0 | Some s \<Rightarrow> s) +
             sum_col streams (filter (\<lambda>x. region x = region r \<and> year x = year r) (remove1 r df))"
proof -
  have "(region r, year r) \<in> (\<lambda>c. (cys_region c, cys_year c)) ` set (cys_of df)"
    using r by (simp only: cys_regions) simp
  then obtain c where c: "c \<in> set (cys_of df)" "cys_region c = region r" "cys_year c = year r"
    by auto
  from c(1) obtain rs where rs: "rs = filter (\<lambda>x. region x = cys_region c \<and> year x = cys_year c) df"
    and n: "chart_rows c = length rs" and t: "total_streams c = sum_col streams rs"
    by (rule cys_row_cases)
  have rs': "rs = filter (\<lambda>x. region x = region r \<and> year x = year r) df"
    by (simp only: rs c)
  have "chart_rows c =
      Suc (length (filter (\<lambda>x. region x = region r \<and> year x = year r) (remove1 r df)))"
    unfolding n rs' using r by (intro length_filter_remove1) simp_all
  moreover have "total_streams c =
      (case streams r of None \<Rightarrow> 0 | Some s \<Rightarrow> s) +
      sum_col streams (filter (\<lambda>x. region x = region r \<and> year x = year r) (remove1 r df))"
    unfolding t rs' using r by (intro sum_col_filter_remove1) simp_all
  ultimately show ?thesis using c by blast
qed










lemma no_url_cys:
  "cys_2021 True [with_url_row, no_url_row] =
     Inr [\<lparr>cys_region = ''US'', cys_year = 2021, chart_rows = 2, unique_tracks = 1,
            unique_artists = 2, total_streams = 140, avg_streams = Some 70\<rparr>]"
  by (simp add: cys_2021_def groupby_def List.map_filter_simps nunique_def sum_col_def
      mean_col_def with_url_row_def no_url_row_def)





section \<open>The track family evaluated\<close>






















lemma tie_clean:
  "df_2021 iso_datetime digits_numeric tie_csv =
     [\<lparr>title = Some ''T2'', rank = 2, date = (2021, 1, 1), artist = Some ''Y'',
       url = Some ''u2'', region = ''US'', chart = ''top200'', streams = Some 50, year = 2021\<rparr>,
      \<lparr>title = Some ''T1'', rank = 1, date = (2021, 1, 1), artist = Some ''X'',
       url = Some ''u1'', region = ''US'', chart = ''top200'', streams = Some 50, year = 2021\<rparr>,
      \<lparr>title = Some ''T3'', rank = 3, date = (2021, 1, 1), artist = Some ''Z'',
       url = Some ''u3'', region = ''US'', chart = ''top200'', streams = Some 70, year = 2021\<rparr>]"
  by (simp add: tie_csv_def df_2021_def clean_row_def List.map_filter_simps example_parsers)

lemma tie_tt_grouped:
  "tt_grouped True (df_2021 iso_datetime digits_numeric tie_csv) =
     [tie_track ''u1'' ''T1'' ''X'' 50 1, tie_track ''u2'' ''T2'' ''Y'' 50 2,
      tie_track ''u3'' ''T3'' ''Z'' 70 3]"
  unfolding tie_clean
  by (simp add: tt_grouped_def groupby_def tt_key_def track_id_def List.map_filter_simps
      nunique_def sum_col_def min_col_def tie_track_def less_eq_prod_def less_prod_def)

lemma tie_tt:
  "tt_2021 True (df_2021 iso_datetime digits_numeric tie_csv) =
     [(tie_track ''u3'' ''T3'' ''Z'' 70 3, 1), (tie_track ''u1'' ''T1'' ''X'' 50 1, 2),
      (tie_track ''u2'' ''T2'' ''Y'' 50 2, 3)]"
  unfolding tt_2021_def tie_tt_grouped
  by (simp add: rank_year_top_def cumcount_def tie_track_def less_eq_prod_def less_prod_def)

lemma tie_ay_grouped:
  "ay_grouped True (df_2021 iso_datetime digits_numeric tie_csv) =
     [tie_artist ''X'' 50 1, tie_artist ''Y'' 50 2, tie_artist ''Z'' 70 3]"
  unfolding tie_clean
  by (simp add: ay_grouped_def groupby_def ay_key_def track_id_def List.map_filter_simps
      nunique_def sum_col_def min_col_def tie_artist_def less_eq_prod_def less_prod_def)

lemma tie_ay:
  "ay_2021 True (df_2021 iso_datetime digits_numeric tie_csv) =
     [(tie_artist ''Z'' 70 3, 1), (tie_artist ''X'' 50 1, 2), (tie_artist ''Y'' 50 2, 3)]"
  unfolding ay_2021_def tie_ay_grouped
  by (simp add: rank_year_top_def cumcount_def tie_artist_def less_eq_prod_def less_prod_def)

section \<open>The script as a whole\<close>

text \<open>A table without a url column ends the run at the summary, before the title is
  ever used as the track key.\<close>

lemma backfill_without_url: "backfill td tn False df fs = Inl (KeyError ''url'')"
  by (simp add: backfill_def cys_2021_def)

lemma backfill_with_url:
  "backfill td tn True df fs =
     Inr (append_dedupe
           (append_dedupe
             (append_dedupe fs cys_path (map cys_to_row (cys_of (df_2021 td tn df)))
                cys_subset_keys)
             tt_path (map (tt_to_row True) (tt_2021 True (df_2021 td tn df)))
             (tt_subset_keys True))
           ay_path (map ay_to_row (ay_2021 True (df_2021 td tn df))) ay_subset_keys)"
  by (simp add: backfill_def cys_2021_url Let_def)

lemma backfill_tt_table:
  "(case backfill td tn True df fs of Inr fs' \<Rightarrow> fs' tt_path | Inl e \<Rightarrow> None) =
     append_dedupe fs tt_path (map (tt_to_row True) (tt_2021 True (df_2021 td tn df)))
       (tt_subset_keys True) tt_path"
  by (simp add: backfill_with_url append_dedupe_def Let_def cys_path_def tt_path_def ay_path_def)

lemma retitled_first_run:
  "(case backfill iso_datetime digits_numeric True retitled_csv Map.empty of
      Inr fs \<Rightarrow> fs tt_path | Inl e \<Rightarrow> None) = Some [retitled_a, retitled_b]"
  unfolding backfill_tt_table retitled_tt by (simp add: append_dedupe_def)

lemma retitled_second_run:
  "(case backfill iso_datetime digits_numeric True retitled_csv Map.empty of
      Inr fs \<Rightarrow>
        (case backfill iso_datetime digits_numeric True retitled_csv fs of
           Inr fs' \<Rightarrow> fs' tt_path | Inl e \<Rightarrow> None)
    | Inl e \<Rightarrow> None) = Some [retitled_b]"
proof -
  obtain fs where fs: "backfill iso_datetime digits_numeric True retitled_csv Map.empty = Inr fs"
    by (simp add: backfill_with_url)
  with retitled_first_run have 1: "fs tt_path = Some [retitled_a, retitled_b]" by simp
  have "(case backfill iso_datetime digits_numeric True retitled_csv fs of
           Inr fs' \<Rightarrow> fs' tt_path | Inl e \<Rightarrow> None) = Some [retitled_b]"
    unfolding backfill_tt_table retitled_tt
    by (simp add: append_dedupe_def 1 row_key_def cell_of_def tt_subset_keys_def track_key_def
        retitled_a_def retitled_b_def)
  with fs show ?thesis by simp
qed

section \<open>Claims about \<open>append_dedupe\<close>\<close>

text \<open>
  C1, as stated, at an existing table of one row and two new rows that have its key: the
  first new row is not in the written table, so not every row of the new table appears in
  the result.
\<close>

theorem C1_new_row_dropped:
  "retitled_a \<in> set [retitled_a, retitled_b] \<and>
   append_dedupe (Map.empty(tt_path \<mapsto> [retitled_b])) tt_path [retitled_a, retitled_b]
       (tt_subset_keys True) tt_path = Some [retitled_b] \<and>
   retitled_a \<notin> set [retitled_b]"
  by (simp add: append_dedupe_def row_key_def cell_of_def tt_subset_keys_def track_key_def
      retitled_a_def retitled_b_def)

text \<open>
  C1, amended. When the path holds no table, the written table is the new table unchanged.
  Otherwise it is the old table followed by the new one, deduplicated on the key columns
  keeping the last occurrence: first the rows of the old table that are the last of their
  key in the old table and whose key does not occur in the new table, then the rows of the
  new table that are the last of their key in the new table. So no retained old row has a
  key of the new table, and when no key repeats inside the new table (inside the old table)
  all its rows (all its rows with a key not in the new table) are in the result, in order.
\<close>

theorem C1_append_dedupe_result:
  "(fs p = None \<longrightarrow> append_dedupe fs p new ks p = Some new) \<and>
   (fs p = Some old \<longrightarrow>
      append_dedupe fs p new ks p = Some (drop_duplicates ks (old @ new)) \<and>
      drop_duplicates ks (old @ new) =
        filter (\<lambda>r. row_key ks r \<notin> row_key ks ` set new) (drop_duplicates ks old)
        @ drop_duplicates ks new \<and>
      (unique_keys ks new \<longrightarrow> drop_duplicates ks new = new) \<and>
      (unique_keys ks old \<longrightarrow> drop_duplicates ks old = old))"
  by (simp add: append_dedupe_absent append_dedupe_present drop_duplicates_unique
      drop_duplicates_append [of ks old new])

text \<open>The merge example of the specification, through the theorem.\<close>

theorem C1_append_dedupe_result_witness:
  "(Map.empty(''cys'' \<mapsto> [us_2020_old])) ''cys'' = Some [us_2020_old] \<and>
   unique_keys [''region'', ''year''] [us_2020_new, fr_2020_new] \<and>
   unique_keys [''region'', ''year''] [us_2020_old] \<and>
   append_dedupe (Map.empty(''cys'' \<mapsto> [us_2020_old])) ''cys'' [us_2020_new, fr_2020_new]
       [''region'', ''year''] ''cys'' = Some [us_2020_new, fr_2020_new] \<and>
   append_dedupe Map.empty ''cys'' [us_2020_new, fr_2020_new]
       [''region'', ''year''] ''cys'' = Some [us_2020_new, fr_2020_new]"
  using C1_append_dedupe_result [of "Map.empty(''cys'' \<mapsto> [us_2020_old])" "''cys''"
      "[us_2020_new, fr_2020_new]" "[''region'', ''year'']" "[us_2020_old]"]
    C1_append_dedupe_result [of "Map.empty" "''cys''"
      "[us_2020_new, fr_2020_new]" "[''region'', ''year'']" "[]"]
  by (simp add: unique_keys_def row_key_def cell_of_def us_2020_old_def us_2020_new_def
      fr_2020_new_def)

text \<open>
  C3, at rows the script itself builds. A track that charted under two titles gives two
  top-track rows with one key (region, year, url). With no table at the path these rows
  are written as they are, by the call and by the whole script run on empty exports: the
  written table has two rows that agree on all key columns.
\<close>

theorem C3_first_write_repeats_key:
  "map (tt_to_row True) (tt_2021 True (df_2021 iso_datetime digits_numeric retitled_csv))
     = [retitled_a, retitled_b] \<and>
   append_dedupe Map.empty tt_path [retitled_a, retitled_b] (tt_subset_keys True) tt_path
     = Some [retitled_a, retitled_b] \<and>
   (case backfill iso_datetime digits_numeric True retitled_csv Map.empty of
      Inr fs \<Rightarrow> fs tt_path | Inl e \<Rightarrow> None) = Some [retitled_a, retitled_b] \<and>
   row_key (tt_subset_keys True) retitled_a = row_key (tt_subset_keys True) retitled_b \<and>
   \<not> unique_keys (tt_subset_keys True) [retitled_a, retitled_b]"
  by (simp add: retitled_tt retitled_first_run append_dedupe_def unique_keys_def row_key_def
      cell_of_def tt_subset_keys_def track_key_def retitled_a_def retitled_b_def)

text \<open>
  C2, at the same rows. The first merge, with no table at the path, writes both rows; the
  second merge of the same new rows writes only the last one, and so does a second run of
  the whole script on the same chart lines: merging twice is not merging once.
\<close>

theorem C2_second_run_differs:
  "append_dedupe Map.empty tt_path [retitled_a, retitled_b] (tt_subset_keys True) tt_path
     = Some [retitled_a, retitled_b] \<and>
   append_dedupe
     (append_dedupe Map.empty tt_path [retitled_a, retitled_b] (tt_subset_keys True))
     tt_path [retitled_a, retitled_b] (tt_subset_keys True) tt_path
     = Some [retitled_b] \<and>
   (case backfill iso_datetime digits_numeric True retitled_csv Map.empty of
      Inr fs \<Rightarrow>
        (case backfill iso_datetime digits_numeric True retitled_csv fs of
           Inr fs' \<Rightarrow> fs' tt_path | Inl e \<Rightarrow> None)
    | Inl e \<Rightarrow> None) = Some [retitled_b] \<and>
   [retitled_a, retitled_b] \<noteq> [retitled_b]"
  by (simp add: retitled_second_run)
    (simp add: append_dedupe_def row_key_def cell_of_def
      tt_subset_keys_def track_key_def retitled_a_def retitled_b_def)

section \<open>Claims about the ranking of tracks and artists\<close>



text \<open>
  C6. Ties on summed streams keep the order of the grouped table: if entry \<open>a\<close> comes before
  entry \<open>b\<close> after grouping, both are of one region and year and have equal summed streams,
  and \<open>b\<close> is in the output with rank \<open>kb\<close>, then \<open>a\<close> is in the output with a smaller rank, and
  with no rank that is not smaller.
\<close>

theorem C6_ties_keep_grouping_order:
  "(precedes a b (tt_grouped uc df) \<and> tt_region a = tt_region b \<and> tt_year a = tt_year b \<and>
    tt_streams a = tt_streams b \<and> (b, kb) \<in> set (tt_2021 uc df) \<longrightarrow>
      (\<exists>ka<kb. (a, ka) \<in> set (tt_2021 uc df)) \<and>
      (\<forall>k. (a, k) \<in> set (tt_2021 uc df) \<longrightarrow> k < kb)) \<and>
   (precedes c d (ay_grouped uc df) \<and> ay_region c = ay_region d \<and> ay_year c = ay_year d \<and>
    ay_streams c = ay_streams d \<and> (d, kd) \<in> set (ay_2021 uc df) \<longrightarrow>
      (\<exists>kc<kd. (c, kc) \<in> set (ay_2021 uc df)) \<and>
      (\<forall>k. (c, k) \<in> set (ay_2021 uc df) \<longrightarrow> k < kd))"
  unfolding tt_2021_def ay_2021_def
  apply (rule conjI)
  subgoal
    apply (rule impI, elim conjE)
    by (rule rank_year_top_stable [OF distinct_tt_grouped])
  subgoal
    apply (rule impI, elim conjE)
    by (rule rank_year_top_stable [OF distinct_ay_grouped])
  done

theorem C6_ties_keep_grouping_order_witness:
  "precedes (tie_track ''u1'' ''T1'' ''X'' 50 1) (tie_track ''u2'' ''T2'' ''Y'' 50 2)
     (tt_grouped True (df_2021 iso_datetime digits_numeric tie_csv)) \<and>
   tt_streams (tie_track ''u1'' ''T1'' ''X'' 50 1) = tt_streams (tie_track ''u2'' ''T2'' ''Y'' 50 2) \<and>
   (tie_track ''u2'' ''T2'' ''Y'' 50 2, 3)
     \<in> set (tt_2021 True (df_2021 iso_datetime digits_numeric tie_csv)) \<and>
   (\<exists>ka<3. (tie_track ''u1'' ''T1'' ''X'' 50 1, ka)
     \<in> set (tt_2021 True (df_2021 iso_datetime digits_numeric tie_csv))) \<and>
   (tie_track ''u1'' ''T1'' ''X'' 50 1, 3)
     \<notin> set (tt_2021 True (df_2021 iso_datetime digits_numeric tie_csv)) \<and>
   precedes (tie_artist ''X'' 50 1) (tie_artist ''Y'' 50 2)
     (ay_grouped True (df_2021 iso_datetime digits_numeric tie_csv)) \<and>
   ay_streams (tie_artist ''X'' 50 1) = ay_streams (tie_artist ''Y'' 50 2) \<and>
   (tie_artist ''Y'' 50 2, 3) \<in> set (ay_2021 True (df_2021 iso_datetime digits_numeric tie_csv)) \<and>
   (\<exists>kc<3. (tie_artist ''X'' 50 1, kc)
     \<in> set (ay_2021 True (df_2021 iso_datetime digits_numeric tie_csv))) \<and>
   (tie_artist ''X'' 50 1, 3) \<notin> set (ay_2021 True (df_2021 iso_datetime digits_numeric tie_csv))"
proof -
  define df where "df = df_2021 iso_datetime digits_numeric tie_csv"
  define a where "a = tie_track ''u1'' ''T1'' ''X'' 50 1"
  define b where "b = tie_track ''u2'' ''T2'' ''Y'' 50 2"
  define c where "c = tie_artist ''X'' 50 1"
  define d where "d = tie_artist ''Y'' 50 2"
  note T = C6_ties_keep_grouping_order [of a b True df 3 c d 3]
  have h1: "precedes a b (tt_grouped True df)"
    unfolding df_def tie_tt_grouped a_def b_def by (simp add: tie_track_def)
  have h2: "tt_region a = tt_region b \<and> tt_year a = tt_year b \<and> tt_streams a = tt_streams b"
    by (simp add: a_def b_def tie_track_def)
  have h3: "(b, 3) \<in> set (tt_2021 True df)"
    unfolding df_def tie_tt b_def by simp
  have h4: "precedes c d (ay_grouped True df)"
    unfolding df_def tie_ay_grouped c_def d_def by (simp add: tie_artist_def)
  have h5: "ay_region c = ay_region d \<and> ay_year c = ay_year d \<and> ay_streams c = ay_streams d"
    by (simp add: c_def d_def tie_artist_def)
  have h6: "(d, 3) \<in> set (ay_2021 True df)"
    unfolding df_def tie_ay d_def by simp
  have ht: "precedes a b (tt_grouped True df) \<and> tt_region a = tt_region b \<and>
      tt_year a = tt_year b \<and> tt_streams a = tt_streams b \<and> (b, 3) \<in> set (tt_2021 True df)"
    using h1 h2 h3 by simp
  have hy: "precedes c d (ay_grouped True df) \<and> ay_region c = ay_region d \<and>
      ay_year c = ay_year d \<and> ay_streams c = ay_streams d \<and> (d, 3) \<in> set (ay_2021 True df)"
    using h4 h5 h6 by simp
  from T [THEN conjunct1] ht have t: "(\<exists>ka<3. (a, ka) \<in> set (tt_2021 True df)) \<and>
      (\<forall>k. (a, k) \<in> set (tt_2021 True df) \<longrightarrow> k < 3)"
    by (rule mp)
  from T [THEN conjunct2] hy have y: "(\<exists>kc<3. (c, kc) \<in> set (ay_2021 True df)) \<and>
      (\<forall>k. (c, k) \<in> set (ay_2021 True df) \<longrightarrow> k < 3)"
    by (rule mp)
  from t have t': "(a, 3) \<notin> set (tt_2021 True df)" by blast
  from y have y': "(c, 3) \<notin> set (ay_2021 True df)" by blast
  from h1 h2 h3 t t' h4 h5 h6 y y' show ?thesis
    unfolding df_def a_def b_def c_def d_def by blast
qed

section \<open>Claims about the cleanup\<close>




section \<open>Claim about the columns the dashboards read\<close>

text \<open>
  C9. The written rows carry exactly the columns of the aggregations. Of the columns the
  two dashboards read, these are not among them: \<^verbatim>\<open>iso3\<close>, \<^verbatim>\<open>country\<close> and
  \<^verbatim>\<open>avg_rank\<close> of the country-year summary; \<^verbatim>\<open>country\<close>, \<^verbatim>\<open>streams_sum\<close>,
  \<^verbatim>\<open>track_name\<close>, \<^verbatim>\<open>artist_name\<close> and \<^verbatim>\<open>days_charted\<close> of the top tracks;
  \<^verbatim>\<open>artist_name\<close>, \<^verbatim>\<open>streams_sum\<close> and \<^verbatim>\<open>country\<close> of the artists.
\<close>

theorem C9_columns_read_but_not_written:
  "map fst (cys_to_row c) = cys_columns \<and>
   map fst (tt_to_row True p) = tt_columns True \<and>
   map fst (ay_to_row q) = ay_columns \<and>
   filter (\<lambda>n. n \<notin> set cys_columns) streamlit_cys_reads = [''iso3'', ''country'', ''avg_rank''] \<and>
   filter (\<lambda>n. n \<notin> set (tt_columns True)) streamlit_tt_reads
     = [''country'', ''streams_sum'', ''track_name'', ''artist_name'', ''days_charted''] \<and>
   filter (\<lambda>n. n \<notin> set ay_columns) streamlit_ay_reads
     = [''artist_name'', ''streams_sum'', ''country''] \<and>
   filter (\<lambda>n. n \<notin> set cys_columns) shiny_cys_reads = [''iso3'', ''country'', ''avg_rank''] \<and>
   filter (\<lambda>n. n \<notin> set (tt_columns True)) shiny_tt_reads
     = [''country'', ''streams_sum'', ''track_name'', ''artist_name'', ''days_charted''] \<and>
   filter (\<lambda>n. n \<notin> set ay_columns) shiny_ay_reads
     = [''artist_name'', ''streams_sum'', ''country'']"
  by (simp add: cys_to_row_def tt_to_row_def ay_to_row_def cys_columns_def tt_columns_def
      ay_columns_def track_key_def streamlit_cys_reads_def streamlit_tt_reads_def
      streamlit_ay_reads_def shiny_cys_reads_def shiny_tt_reads_def shiny_ay_reads_def)

section \<open>Claims about the country-year summary and the track identifier\<close>




text \<open>
  C10. A row whose url is missing forms no group of the top tracks: the grouped table and
  the top tracks are the same with and without such rows. Yet the cleanup does not look at
  the url: a line that qualifies still qualifies without its url and is kept with a missing
  url. And the summary counts it: the row of its region and year has \<open>chart_rows\<close> one
  larger, and \<open>total_streams\<close> larger by the row's streams, than the other rows of that
  region and year give.
\<close>

theorem C10_rows_without_url:
  "tt_grouped True (filter (\<lambda>r. url r \<noteq> None) df) = tt_grouped True df \<and>
   tt_2021 True (filter (\<lambda>r. url r \<noteq> None) df) = tt_2021 True df \<and>
   (qualifies td tn l \<longrightarrow>
      qualifies td tn (l\<lparr>csv_url := None\<rparr>) \<and>
      map_option url (clean_row td tn (l\<lparr>csv_url := None\<rparr>)) = Some None) \<and>
   (\<exists>out. cys_2021 True df = Inr out \<and>
      (\<forall>r\<in>set df. url r = None \<longrightarrow>
         (\<exists>c\<in>set out. cys_region c = region r \<and> cys_year c = year r \<and>
            chart_rows c =
              Suc (length (filter (\<lambda>x. region x = region r \<and> year x = year r) (remove1 r df))) \<and>
            total_streams c =
              (case streams r of None \<Rightarrow> 0 | Some s \<Rightarrow> s) +
              sum_col streams
                (filter (\<lambda>x. region x = region r \<and> year x = year r) (remove1 r df)))))"
proof -
  have g: "tt_grouped True (filter (\<lambda>r. url r \<noteq> None) df) = tt_grouped True df"
    using tt_grouped_without_missing [of True df] by (simp add: track_id_def)
  have t: "tt_2021 True (filter (\<lambda>r. url r \<noteq> None) df) = tt_2021 True df"
    by (simp only: tt_2021_def g)
  have c: "\<exists>out. cys_2021 True df = Inr out \<and>
      (\<forall>r\<in>set df. url r = None \<longrightarrow>
         (\<exists>c\<in>set out. cys_region c = region r \<and> cys_year c = year r \<and>
            chart_rows c =
              Suc (length (filter (\<lambda>x. region x = region r \<and> year x = year r) (remove1 r df))) \<and>
            total_streams c =
              (case streams r of None \<Rightarrow> 0 | Some s \<Rightarrow> s) +
              sum_col streams
                (filter (\<lambda>x. region x = region r \<and> year x = year r) (remove1 r df))))"
    by (intro exI [of _ "cys_of df"] conjI ballI impI cys_2021_url cys_counts_row)
  show ?thesis
    apply (intro conjI)
       apply (rule g)
      apply (rule t)
     apply (rule impI, erule qualifies_without_url)
    apply (rule c)
    done
qed

theorem C10_rows_without_url_witness:
  "qualifies iso_datetime digits_numeric
     (csv_line ''Other'' ''5'' ''2021-02-03'' ''Y'' (Some ''u2'') ''US'' (Some ''40'')) \<and>
   clean_row iso_datetime digits_numeric
     (csv_line ''Other'' ''5'' ''2021-02-03'' ''Y'' None ''US'' (Some ''40'')) = Some no_url_row \<and>
   no_url_row \<in> set [with_url_row, no_url_row] \<and> url no_url_row = None \<and>
   tt_2021 True [with_url_row] = tt_2021 True [with_url_row, no_url_row] \<and>
   (case cys_2021 True [with_url_row, no_url_row] of
      Inr out \<Rightarrow> map (\<lambda>c. (cys_region c, chart_rows c, total_streams c)) out
    | Inl e \<Rightarrow> []) = [(''US'', 2, 140)]"
proof -
  define df where "df = [with_url_row, no_url_row]"
  define l where "l = csv_line ''Other'' ''5'' ''2021-02-03'' ''Y'' (Some ''u2'') ''US'' (Some ''40'')"
  define c where "c = \<lparr>cys_region = ''US'', cys_year = 2021, chart_rows = 2, unique_tracks = 1,
            unique_artists = 2, total_streams = 140, avg_streams = Some 70\<rparr>"
  note T = C10_rows_without_url [of df iso_datetime digits_numeric l]
  have h1: "qualifies iso_datetime digits_numeric l"
    by (simp add: l_def qualifies_def example_parsers)
  have h2: "no_url_row \<in> set df" by (simp add: df_def)
  have h3: "url no_url_row = None" by (simp add: no_url_row_def)
  have l': "l\<lparr>csv_url := None\<rparr> = csv_line ''Other'' ''5'' ''2021-02-03'' ''Y'' None ''US'' (Some ''40'')"
    by (simp add: l_def csv_line_def)
  from T h1 have q: "qualifies iso_datetime digits_numeric (l\<lparr>csv_url := None\<rparr>)"
    by (elim conjE) simp
  have "clean_row iso_datetime digits_numeric (l\<lparr>csv_url := None\<rparr>) = Some no_url_row"
    using clean_row_Some [OF q] unfolding l'
    by (simp add: no_url_row_def example_parsers)
  then have cl: "clean_row iso_datetime digits_numeric
     (csv_line ''Other'' ''5'' ''2021-02-03'' ''Y'' None ''US'' (Some ''40'')) = Some no_url_row"
    by (simp only: l')
  have f: "filter (\<lambda>r. url r \<noteq> None) df = [with_url_row]"
    by (simp add: df_def with_url_row_def no_url_row_def)
  from T have "tt_2021 True (filter (\<lambda>r. url r \<noteq> None) df) = tt_2021 True df" by (elim conjE)
  then have t: "tt_2021 True [with_url_row] = tt_2021 True df" by (simp only: f)
  from T obtain out where o: "cys_2021 True df = Inr out" and
    b: "\<forall>r\<in>set df. url r = None \<longrightarrow>
         (\<exists>c\<in>set out. cys_region c = region r \<and> cys_year c = year r \<and>
            chart_rows c =
              Suc (length (filter (\<lambda>x. region x = region r \<and> year x = year r) (remove1 r df))) \<and>
            total_streams c =
              (case streams r of None \<Rightarrow> 0 | Some s \<Rightarrow> s) +
              sum_col streams
                (filter (\<lambda>x. region x = region r \<and> year x = year r) (remove1 r df)))"
    by (elim conjE exE)
  from o have out: "out = [c]" by (simp add: df_def c_def no_url_cys)
  from b h2 h3 obtain c' where c': "c' \<in> set out" "cys_region c' = region no_url_row"
    "chart_rows c' = Suc (length (filter (\<lambda>x. region x = region no_url_row \<and>
        year x = year no_url_row) (remove1 no_url_row df)))"
    "total_streams c' = (case streams no_url_row of None \<Rightarrow> 0 | Some s \<Rightarrow> s) +
        sum_col streams (filter (\<lambda>x. region x = region no_url_row \<and>
        year x = year no_url_row) (remove1 no_url_row df))"
    by blast
  then have "c' = c" by (simp add: out)
  with c' have v: "cys_region c = ''US'' \<and> chart_rows c = 2 \<and> total_streams c = 140"
    by (simp add: c_def)
  have "(case cys_2021 True df of
      Inr out \<Rightarrow> map (\<lambda>c. (cys_region c, chart_rows c, total_streams c)) out
    | Inl e \<Rightarrow> []) = [(''US'', 2, 140)]"
    using v by (simp add: o out)
  with h1 cl h2 h3 t show ?thesis unfolding df_def l_def by simp
qed




end
